theory Spec2Isabelle
  imports Main "HOL-Library.Multiset"
begin

section \<open>The covid dashboard of project/3\_covid-chart/src/app.ts\<close>

text \<open>
  The page script is embedded with explicit state passing. The DOM nodes the script
  reads and writes, the loading flag, the charts drawn on the canvas and the GET
  requests sent so far form one record, \<open>page\<close>; every function of the script that
  touches them takes the page and returns the new one. An \<^verbatim>\<open>async\<close> function is
  a resumable computation: it runs up to its next \<^verbatim>\<open>await\<close>, where it hands back
  a continuation, and is resumed when the awaited promise settles.
\<close>

subsection \<open>The JavaScript host\<close>

text \<open>
  \<^verbatim>\<open>new Date(s).getTime()\<close> and \<^verbatim>\<open>new Date(s).toLocaleDateString()\<close> depend
  on the engine and on the locale of the browser, so they are parameters of the model.
  A time value is a whole number of milliseconds; \<open>None\<close> stands for \<^verbatim>\<open>NaN\<close>,
  the time value of an invalid date.
\<close>

record host =
  Date_getTime :: "string \<Rightarrow> int option"
  Date_toLocaleDateString :: "string \<Rightarrow> string"

datatype js_error = TypeError | NotFoundError | NetworkError | CanvasInUse

text \<open>
  \<^verbatim>\<open>Number.prototype.toString\<close> on the integral counts of the payloads: decimal
  digits, with a sign for negative numbers.
\<close>

fun nat_toString :: "nat \<Rightarrow> string" where
  "nat_toString n =
     (if n < 10 then [''0123456789'' ! n]
      else nat_toString (n div 10) @ [''0123456789'' ! (n mod 10)])"

declare nat_toString.simps [simp del]

definition Number_toString :: "int \<Rightarrow> string" where
  "Number_toString i =
     (if i < 0 then CHR ''-'' # nat_toString (nat (- i)) else nat_toString (nat i))"

text \<open>
  \<^verbatim>\<open>String.prototype.slice(start, stop)\<close> and \<^verbatim>\<open>Array.prototype.slice(start)\<close>:
  a negative index counts from the end, and every index is clamped to the length.
\<close>

definition relative_index :: "int \<Rightarrow> nat \<Rightarrow> nat" where
  "relative_index i len =
     (if i < 0 then nat (max (int len + i) 0) else nat (min i (int len)))"

definition String_slice :: "string \<Rightarrow> int \<Rightarrow> int \<Rightarrow> string" where
  "String_slice s start stop =
     (let from = relative_index start (length s);
          to = relative_index stop (length s)
      in take (to - from) (drop from s))"

definition Array_slice :: "'a list \<Rightarrow> int \<Rightarrow> 'a list" where
  "Array_slice xs start = drop (relative_index start (length xs)) xs"

text \<open>
  \<^verbatim>\<open>Array.prototype.sort(comparefn)\<close> sorts the array in place and returns it. The
  sort is stable, an element \<open>a\<close> stays before \<open>b\<close> unless \<open>comparefn(a, b) > 0\<close>,
  and a comparison that yields \<^verbatim>\<open>NaN\<close> counts as \<open>0\<close>. For a consistent
  comparison function this fixes the result, which a stable insertion sort computes.
  (For an inconsistent one, as \<^verbatim>\<open>NaN\<close> results make it, ECMAScript leaves the order
  to the engine; the theorems below are about consistent comparisons only.)
\<close>

definition compare_value :: "int option \<Rightarrow> int" where
  "compare_value v = (case v of None \<Rightarrow> 0 | Some n \<Rightarrow> n)"

fun sort_insert :: "('a \<Rightarrow> 'a \<Rightarrow> int option) \<Rightarrow> 'a \<Rightarrow> 'a list \<Rightarrow> 'a list" where
  "sort_insert comparefn a [] = [a]"
| "sort_insert comparefn a (b # bs) =
     (if compare_value (comparefn a b) \<le> 0 then a # b # bs
      else b # sort_insert comparefn a bs)"

fun Array_sort :: "('a \<Rightarrow> 'a \<Rightarrow> int option) \<Rightarrow> 'a list \<Rightarrow> 'a list" where
  "Array_sort comparefn [] = []"
| "Array_sort comparefn (a # as) = sort_insert comparefn a (Array_sort comparefn as)"

subsection \<open>Payloads\<close>

text \<open>
  Modelled from the spec: the payload types \<^verbatim>\<open>Country\<close>, \<^verbatim>\<open>CountryInfo\<close>,
  \<^verbatim>\<open>CovidSummaryResponse\<close> and the enumeration \<^verbatim>\<open>CovidStatus\<close> are declared in
  \<^verbatim>\<open>./covid\<close>, which is not among the sources. The records carry the fields that
  app.ts reads; dates arrive as strings, counts as integral numbers.
\<close>

record Country =
  Country :: string
  Slug :: string
  TotalConfirmed :: int
  TotalDeaths :: int
  TotalRecovered :: int

record CovidSummaryResponse =
  Countries :: "Country list"
  ReportDate :: string

record CountryInfo =
  Cases :: int
  Date :: string

type_synonym CountryInfoResponse = "CountryInfo list"

datatype CovidStatus = Confirmed | Deaths | Recovered

text \<open>
  Modelled from the spec: the string value of each member of \<^verbatim>\<open>CovidStatus\<close>, the
  status selector of the country endpoint (confirmed, deaths, recovered).
\<close>

fun CovidStatus_value :: "CovidStatus \<Rightarrow> string" where
  "CovidStatus_value Confirmed = ''confirmed''"
| "CovidStatus_value Deaths = ''deaths''"
| "CovidStatus_value Recovered = ''recovered''"

subsection \<open>The page\<close>

datatype node =
  Element (tagName: string) (attributes: "(string \<times> string) list") (childNodes: "node list")
| Text string

record chart =
  chart_type :: string
  labels :: "string list"
  dataset_label :: string
  backgroundColor :: string
  borderColor :: string
  dataset_data :: "int list"

record page =
  isDeathLoading :: bool
  deathsTotal :: string
  recoveredTotal :: string
  rankList :: "node list"
  deathsList :: "node list"
  recoveredList :: "node list"
  charts :: "chart list"
  requests :: "string list"

text \<open>
  \<open>deathsTotal\<close> and \<open>recoveredTotal\<close> hold the \<^verbatim>\<open>innerText\<close> of the two counter
  elements, the three lists the children of the three \<^verbatim>\<open>ol\<close> elements, \<open>charts\<close>
  the chart instances that live on the canvas \<^verbatim>\<open>#lineChart\<close>, oldest first, and
  \<open>requests\<close> the URLs handed to \<^verbatim>\<open>axios.get\<close>, oldest first.
\<close>

definition createSpinnerElement :: "string \<Rightarrow> node" where
  "createSpinnerElement ident =
     Element ''div''
       [(''id'', ident), (''class'', ''spinner-wrapper flex justify-center align-center'')]
       [Element ''div'' [(''class'', ''ripple-spinner'')]
          [Element ''div'' [] [], Element ''div'' [] []]]"

definition deathSpinner :: node where
  "deathSpinner = createSpinnerElement ''deaths-spinner''"

definition recoveredSpinner :: node where
  "recoveredSpinner = createSpinnerElement ''recovered-spinner''"

definition getUnixTimestamp :: "host \<Rightarrow> string \<Rightarrow> int option" where
  "getUnixTimestamp h date = Date_getTime h date"

text \<open>
  \<^verbatim>\<open>parent.appendChild(child)\<close> for a node that has no parent, as one that
  \<^verbatim>\<open>document.createElement\<close> has just made.
\<close>

definition appendChild :: "node list \<Rightarrow> node \<Rightarrow> node list" where
  "appendChild children child = children @ [child]"

text \<open>
  Lines 41 to 44. The URL is a template literal: an \<^verbatim>\<open>undefined\<close> country code
  is written into it as the word \<^verbatim>\<open>undefined\<close>. The request is sent at the call;
  its promise is what the caller awaits.
\<close>

definition fetchCountryInfo_url :: "string option \<Rightarrow> CovidStatus \<Rightarrow> string" where
  "fetchCountryInfo_url countryCode status =
     ''https://api.covid19api.com/country/''
     @ (case countryCode of None \<Rightarrow> ''undefined'' | Some c \<Rightarrow> c)
     @ ''/status/'' @ CovidStatus_value status"

definition fetchCountryInfo :: "string option \<Rightarrow> CovidStatus \<Rightarrow> page \<Rightarrow> page" where
  "fetchCountryInfo countryCode status p =
     (let url = fetchCountryInfo_url countryCode status
      in p\<lparr>requests := requests p @ [url]\<rparr>)"

subsection \<open>Rendering the detail lists and the counters\<close>

definition clearDeathList :: "page \<Rightarrow> page" where
  "clearDeathList p = p\<lparr>deathsList := []\<rparr>"

definition clearRecoveredList :: "page \<Rightarrow> page" where
  "clearRecoveredList p = p\<lparr>recoveredList := []\<rparr>"

text \<open>
  Each spinner is one node, made once (lines 30 and 31): appending it while it is
  in the list moves it to the end.
\<close>

definition startLoadingAnimation :: "page \<Rightarrow> page" where
  "startLoadingAnimation p =
     (let p1 = p\<lparr>deathsList := appendChild (remove1 deathSpinner (deathsList p)) deathSpinner\<rparr>
      in p1\<lparr>recoveredList :=
              appendChild (remove1 recoveredSpinner (recoveredList p1)) recoveredSpinner\<rparr>)"

text \<open>
  \<^verbatim>\<open>parent.removeChild(child)\<close> throws when the node is not a child of the parent.
  A function that can throw returns the error, if any, beside the page as it was
  when the error was thrown.
\<close>

definition endLoadingAnimation :: "page \<Rightarrow> js_error option \<times> page" where
  "endLoadingAnimation p =
     (if deathSpinner \<notin> set (deathsList p) then (Some NotFoundError, p)
      else let p1 = p\<lparr>deathsList := remove1 deathSpinner (deathsList p)\<rparr>
           in if recoveredSpinner \<notin> set (recoveredList p1) then (Some NotFoundError, p1)
              else (None, p1\<lparr>recoveredList := remove1 recoveredSpinner (recoveredList p1)\<rparr>))"

definition date_descending :: "host \<Rightarrow> CountryInfo \<Rightarrow> CountryInfo \<Rightarrow> int option" where
  "date_descending h a b =
     (case (getUnixTimestamp h (Date b), getUnixTimestamp h (Date a)) of
        (Some tb, Some ta) \<Rightarrow> Some (tb - ta)
      | _ \<Rightarrow> None)"

definition detail_item :: "host \<Rightarrow> string \<Rightarrow> CountryInfo \<Rightarrow> node" where
  "detail_item h cls v =
     Element ''li'' [(''class'', ''list-item-b flex align-center'')]
       [Element ''span'' [(''class'', cls)] [Text (Number_toString (Cases v))],
        Element ''p'' [] [Text (String_slice (Date_toLocaleDateString h (Date v)) 0 (- 1))]]"

text \<open>
  \<open>setDeathsList\<close> and \<open>setRecoveredList\<close> sort the array they are given in place,
  so they return it beside the page: the caller goes on with the sorted array.
\<close>

definition setDeathsList :: "host \<Rightarrow> CountryInfoResponse \<Rightarrow> page \<Rightarrow> CountryInfoResponse \<times> page" where
  "setDeathsList h data p =
     (let sorted = Array_sort (date_descending h) data
      in (sorted, foldl (\<lambda>q v. q\<lparr>deathsList := appendChild (deathsList q) (detail_item h ''deaths'' v)\<rparr>) p sorted))"

definition setTotalDeathsByCountry :: "CountryInfoResponse \<Rightarrow> page \<Rightarrow> js_error option \<times> page" where
  "setTotalDeathsByCountry data p =
     (case data of
        [] \<Rightarrow> (Some TypeError, p)
      | v # _ \<Rightarrow> (None, p\<lparr>deathsTotal := Number_toString (Cases v)\<rparr>))"

definition setRecoveredList :: "host \<Rightarrow> CountryInfoResponse \<Rightarrow> page \<Rightarrow> CountryInfoResponse \<times> page" where
  "setRecoveredList h data p =
     (let sorted = Array_sort (date_descending h) data
      in (sorted, foldl (\<lambda>q v. q\<lparr>recoveredList := appendChild (recoveredList q) (detail_item h ''recovered'' v)\<rparr>) p sorted))"

definition setTotalRecoveredByCountry :: "CountryInfoResponse \<Rightarrow> page \<Rightarrow> js_error option \<times> page" where
  "setTotalRecoveredByCountry data p =
     (case data of
        [] \<Rightarrow> (Some TypeError, p)
      | v # _ \<Rightarrow> (None, p\<lparr>recoveredTotal := Number_toString (Cases v)\<rparr>))"

subsection \<open>The chart\<close>

text \<open>
  Lines 161 to 181. The script uses chart.js by its registered components (line 2
  and line 158), that is version 3 or later, whose \<^verbatim>\<open>Chart\<close> constructor throws
  (``Canvas is already in use'') when the canvas carries a chart that has not been
  destroyed. The script keeps no handle of a chart and destroys none, so every chart
  it has constructed is still on the canvas: \<^verbatim>\<open>new Chart\<close> throws, and draws
  nothing, unless the canvas is free.
\<close>

definition renderChart :: "int list \<Rightarrow> string list \<Rightarrow> page \<Rightarrow> js_error option \<times> page" where
  "renderChart data lbls p =
     (if charts p \<noteq> [] then (Some CanvasInUse, p)
      else
        (None,
         p\<lparr>charts := charts p @
            [\<lparr>chart_type = ''line'', labels = lbls,
              dataset_label = ''Confirmed for the last two weeks'',
              backgroundColor = ''#feb72b'', borderColor = ''#feb72b'',
              dataset_data = data\<rparr>]\<rparr>))"

definition setChartData ::
  "host \<Rightarrow> CountryInfoResponse \<Rightarrow> page \<Rightarrow> js_error option \<times> page" where
  "setChartData h data p =
     (let chartData = map Cases (Array_slice data (- 14));
          chartLabel = map (\<lambda>value. String_slice (Date_toLocaleDateString h (Date value)) 5 (- 1))
                         (Array_slice data (- 14))
      in renderChart chartData chartLabel p)"

subsection \<open>The rank list\<close>

definition confirmed_descending :: "Country \<Rightarrow> Country \<Rightarrow> int option" where
  "confirmed_descending a b = Some (TotalConfirmed b - TotalConfirmed a)"

definition rank_item :: "Country \<Rightarrow> node" where
  "rank_item v =
     Element ''li'' [(''class'', ''list-item flex align-center''), (''id'', Slug v)]
       [Element ''span'' [(''class'', ''cases'')] [Text (Number_toString (TotalConfirmed v))],
        Element ''p'' [(''class'', ''country'')] [Text (Country v)]]"

text \<open>
  \<open>setCountryRanksByConfirmedCases\<close> sorts \<open>data.Countries\<close> in place; the response
  object as the call leaves it is returned beside the page.
\<close>

definition setCountryRanksByConfirmedCases ::
  "CovidSummaryResponse \<Rightarrow> page \<Rightarrow> CovidSummaryResponse \<times> page" where
  "setCountryRanksByConfirmedCases data p =
     (let sorted = Array_sort confirmed_descending (Countries data)
      in (data\<lparr>Countries := sorted\<rparr>,
          foldl (\<lambda>q v. q\<lparr>rankList := appendChild (rankList q) (rank_item v)\<rparr>) p sorted))"

subsection \<open>The click handler\<close>

datatype html_class =
  HTMLParagraphElement | HTMLSpanElement | HTMLLIElement | HTMLOListElement | HTMLDivElement

datatype target = Target (interface: html_class) (ident: string) (parentElement: "target option")

text \<open>
  Lines 59 to 65: the id of the list item that was clicked, \<open>None\<close> for
  \<^verbatim>\<open>undefined\<close>. Reading \<^verbatim>\<open>.id\<close> of a null parent throws.
\<close>

definition selectedId_of :: "target \<Rightarrow> js_error + string option" where
  "selectedId_of t =
     (if interface t = HTMLParagraphElement \<or> interface t = HTMLSpanElement then
        (case parentElement t of
           None \<Rightarrow> Inl TypeError
         | Some parent \<Rightarrow> Inr (Some (ident parent)))
      else if interface t = HTMLLIElement then Inr (Some (ident t))
      else Inr None)"

text \<open>
  Where \<open>handleListClick\<close> waits: for the deaths response (line 73), for the recovered
  response (line 74) or for the confirmed response (line 75). The continuation holds
  the local variables that are live at that line.
\<close>

datatype continuation =
  AwaitDeaths "string option"
| AwaitRecovered "string option" CountryInfoResponse
| AwaitConfirmed "string option" CountryInfoResponse CountryInfoResponse

datatype outcome = Returned | Threw js_error | Suspended continuation

datatype 'a settled = Fulfilled 'a | Rejected js_error

text \<open>Lines 58 to 73, up to the first \<^verbatim>\<open>await\<close>.\<close>

definition handleListClick :: "target \<Rightarrow> page \<Rightarrow> outcome \<times> page" where
  "handleListClick t p =
     (case selectedId_of t of
        Inl e \<Rightarrow> (Threw e, p)
      | Inr selectedId \<Rightarrow>
          if isDeathLoading p then (Returned, p)
          else
            let p1 = clearDeathList p;
                p2 = clearRecoveredList p1;
                p3 = startLoadingAnimation p2;
                p4 = p3\<lparr>isDeathLoading := True\<rparr>;
                p5 = fetchCountryInfo selectedId Deaths p4
            in (Suspended (AwaitDeaths selectedId), p5))"

text \<open>Lines 76 to 82, after the three responses have arrived.\<close>

definition render_responses ::
  "host \<Rightarrow> CountryInfoResponse \<Rightarrow> CountryInfoResponse \<Rightarrow> CountryInfoResponse \<Rightarrow> page
     \<Rightarrow> outcome \<times> page" where
  "render_responses h deathResponse recoveredResponse confirmedResponse p =
     (case endLoadingAnimation p of
        (Some e, p1) \<Rightarrow> (Threw e, p1)
      | (None, p1) \<Rightarrow>
          let (deathResponse', p2) = setDeathsList h deathResponse p1 in
          (case setTotalDeathsByCountry deathResponse' p2 of
             (Some e, p3) \<Rightarrow> (Threw e, p3)
           | (None, p3) \<Rightarrow>
               let (recoveredResponse', p4) = setRecoveredList h recoveredResponse p3 in
               (case setTotalRecoveredByCountry recoveredResponse' p4 of
                  (Some e, p5) \<Rightarrow> (Threw e, p5)
                | (None, p5) \<Rightarrow>
                    (case setChartData h confirmedResponse p5 of
                       (Some e, p6) \<Rightarrow> (Threw e, p6)
                     | (None, p6) \<Rightarrow> (Returned, p6\<lparr>isDeathLoading := False\<rparr>)))))"

text \<open>
  The awaited promise settles and the handler goes on from its \<^verbatim>\<open>await\<close>: a
  rejection is thrown at that line and ends the handler, as nothing catches it.
\<close>

fun resume :: "host \<Rightarrow> continuation \<Rightarrow> CountryInfoResponse settled \<Rightarrow> page \<Rightarrow> outcome \<times> page" where
  "resume h k (Rejected e) p = (Threw e, p)"
| "resume h (AwaitDeaths selectedId) (Fulfilled deathResponse) p =
     (Suspended (AwaitRecovered selectedId deathResponse),
      fetchCountryInfo selectedId Recovered p)"
| "resume h (AwaitRecovered selectedId deathResponse) (Fulfilled recoveredResponse) p =
     (Suspended (AwaitConfirmed selectedId deathResponse recoveredResponse),
      fetchCountryInfo selectedId Confirmed p)"
| "resume h (AwaitConfirmed selectedId deathResponse recoveredResponse) (Fulfilled confirmedResponse) p =
     render_responses h deathResponse recoveredResponse confirmedResponse p"

subsection \<open>The event loop\<close>

text \<open>
  The browser delivers clicks on the rank list and settles the requests that are
  outstanding, one event at a time. \<open>pending\<close> holds the handler runs that are
  suspended at an \<^verbatim>\<open>await\<close>; \<open>Settle i r\<close> settles the request the \<open>i\<close>-th of them
  waits for.
\<close>

record browser =
  document :: page
  pending :: "continuation list"

datatype event = Click target | Settle nat "CountryInfoResponse settled"

definition suspended :: "outcome \<Rightarrow> continuation list" where
  "suspended out = (case out of Suspended k \<Rightarrow> [k] | _ \<Rightarrow> [])"

fun deliver :: "host \<Rightarrow> event \<Rightarrow> browser \<Rightarrow> browser" where
  "deliver h (Click t) b =
     (let (out, p) = handleListClick t (document b)
      in \<lparr>document = p, pending = pending b @ suspended out\<rparr>)"
| "deliver h (Settle i r) b =
     (if i < length (pending b) then
        let (out, p) = resume h (pending b ! i) r (document b)
        in \<lparr>document = p, pending = take i (pending b) @ drop (Suc i) (pending b) @ suspended out\<rparr>
      else b)"

definition run :: "host \<Rightarrow> event list \<Rightarrow> browser \<Rightarrow> browser" where
  "run h events b = foldl (\<lambda>b e. deliver h e b) b events"

text \<open>The page as the script finds it when it is loaded (line 34: the flag is false).\<close>

definition initial_page :: page where
  "initial_page =
     \<lparr>isDeathLoading = False, deathsTotal = [], recoveredTotal = [], rankList = [],
      deathsList = [], recoveredList = [], charts = [], requests = []\<rparr>"

definition initial_browser :: browser where
  "initial_browser = \<lparr>document = initial_page, pending = []\<rparr>"

subsection \<open>Notions used in the statements\<close>

text \<open>
  The entries of a response all carry a date the host can read, and the date of
  one entry is not after the date of another.
\<close>

definition valid_dates :: "host \<Rightarrow> CountryInfoResponse \<Rightarrow> bool" where
  "valid_dates h data = list_all (\<lambda>v. getUnixTimestamp h (Date v) \<noteq> None) data"

definition not_after :: "host \<Rightarrow> CountryInfo \<Rightarrow> CountryInfo \<Rightarrow> bool" where
  "not_after h a b =
     (case (getUnixTimestamp h (Date a), getUnixTimestamp h (Date b)) of
        (Some ta, Some tb) \<Rightarrow> ta \<le> tb
      | _ \<Rightarrow> False)"

definition time_key :: "host \<Rightarrow> CountryInfo \<Rightarrow> int" where
  "time_key h v = - the (getUnixTimestamp h (Date v))"

text \<open>
  A host for the examples: its clock reads the first two days of 2021 (UTC midnight,
  in milliseconds), and its locale writes a date as it came, followed by a full stop.
\<close>

definition example_host :: host where
  "example_host =
     \<lparr>Date_getTime = (\<lambda>s. if s = ''2021-01-01'' then Some 1609459200000
                           else if s = ''2021-01-02'' then Some 1609545600000
                           else None),
      Date_toLocaleDateString = (\<lambda>s. s @ ''.'')\<rparr>"

definition jan1 :: CountryInfo where
  "jan1 = \<lparr>Cases = 5, Date = ''2021-01-01''\<rparr>"

definition jan2 :: CountryInfo where
  "jan2 = \<lparr>Cases = 9, Date = ''2021-01-02''\<rparr>"

definition country :: "string \<Rightarrow> int \<Rightarrow> Country" where
  "country name n =
     \<lparr>Country = name, Slug = name, TotalConfirmed = n, TotalDeaths = 0, TotalRecovered = 0\<rparr>"


text \<open>
  Targets of a click: the rank list itself, a list item of it (as \<open>rank_item\<close>
  makes them, its id the slug of the country), and the span of another list item.
\<close>

definition rank_list_target :: target where
  "rank_list_target = Target HTMLOListElement [] None"

definition thailand_target :: target where
  "thailand_target = Target HTMLLIElement ''thailand'' (Some rank_list_target)"

definition india_target :: target where
  "india_target = Target HTMLSpanElement [] (Some (Target HTMLLIElement ''india'' (Some rank_list_target)))"

text \<open>
  At most one run of the handler is waiting for a response, and while one is waiting
  the flag is set.
\<close>

definition one_in_flight :: "browser \<Rightarrow> bool" where
  "one_in_flight b =
     (length (pending b) \<le> 1 \<and> (pending b = [] \<or> isDeathLoading (document b)))"

section \<open>Properties\<close>

subsection \<open>The sort of the arrays\<close>

lemma sort_insert_insort_key:
  fixes f :: "'a \<Rightarrow> int"
  assumes "\<And>b. b \<in> set bs \<Longrightarrow> (compare_value (comparefn a b) \<le> 0) = (f a \<le> f b)"
  shows "sort_insert comparefn a bs = insort_key f a bs"
  using assms by (induction bs) auto

lemma Array_sort_sort_key:
  fixes f :: "'a \<Rightarrow> int"
  assumes "\<And>a b. a \<in> set xs \<Longrightarrow> b \<in> set xs \<Longrightarrow>
             (compare_value (comparefn a b) \<le> 0) = (f a \<le> f b)"
  shows "Array_sort comparefn xs = sort_key f xs"
  using assms
proof (induction xs)
  case Nil
  show ?case by simp
next
  case (Cons a as)
  have tl: "Array_sort comparefn as = sort_key f as"
    using Cons by simp
  have "sort_insert comparefn a (sort_key f as) = insort_key f a (sort_key f as)"
    by (rule sort_insert_insort_key) (simp add: Cons.prems)
  with tl show ?case by (simp add: sort_key_def)
qed

lemma Array_sort_confirmed:
  "Array_sort confirmed_descending cs = sort_key (\<lambda>c. - TotalConfirmed c) cs"
  by (rule Array_sort_sort_key) (simp add: confirmed_descending_def compare_value_def)

lemma valid_datesD:
  "valid_dates h data \<Longrightarrow> \<forall>v\<in>set data. \<exists>t. getUnixTimestamp h (Date v) = Some t"
  by (auto simp: valid_dates_def list_all_iff)

lemma Array_sort_date:
  assumes "valid_dates h data"
  shows "Array_sort (date_descending h) data = sort_key (time_key h) data"
proof (rule Array_sort_sort_key)
  fix a b assume "a \<in> set data" "b \<in> set data"
  with valid_datesD [OF assms] obtain ta tb
    where "getUnixTimestamp h (Date a) = Some ta" "getUnixTimestamp h (Date b) = Some tb"
    by blast
  then show "(compare_value (date_descending h a b) \<le> 0) = (time_key h a \<le> time_key h b)"
    by (simp add: date_descending_def compare_value_def time_key_def)
qed

lemma sorted_neg_key:
  fixes f :: "'a \<Rightarrow> int"
  shows "sorted (map (\<lambda>x. - f x) xs) = sorted_wrt (\<lambda>a b. f b \<le> f a) xs"
  by (simp add: sorted_map)

lemma not_after_time_key:
  assumes "getUnixTimestamp h (Date a) \<noteq> None" "getUnixTimestamp h (Date b) \<noteq> None"
  shows "not_after h a b = (time_key h b \<le> time_key h a)"
  using assms by (auto simp: not_after_def time_key_def)

lemma sorted_date_descending:
  assumes "valid_dates h data"
  shows "sorted_wrt (\<lambda>a b. not_after h b a) (Array_sort (date_descending h) data)"
proof -
  let ?s = "sort_key (time_key h) data"
  have v: "\<forall>v\<in>set ?s. getUnixTimestamp h (Date v) \<noteq> None"
    using assms by (simp add: valid_dates_def list_all_iff)
  have "sorted (map (time_key h) ?s)" by (rule sorted_sort_key)
  then have "sorted_wrt (\<lambda>a b. time_key h a \<le> time_key h b) ?s"
    by (simp only: sorted_map)
  then have "sorted_wrt (\<lambda>a b. not_after h b a) ?s"
    by (rule sorted_wrt_mono_rel [rotated]) (use v in \<open>simp add: not_after_time_key\<close>)
  then show ?thesis
    by (simp add: Array_sort_date [OF assms])
qed

lemma stable_date_descending:
  assumes "valid_dates h data"
  shows "filter (\<lambda>v. getUnixTimestamp h (Date v) = t) (Array_sort (date_descending h) data)
           = filter (\<lambda>v. getUnixTimestamp h (Date v) = t) data"
proof (cases t)
  case None
  have "filter (\<lambda>v. getUnixTimestamp h (Date v) = None) xs = []" if "set xs = set data" for xs
    using that valid_datesD [OF assms] by (auto simp: filter_empty_conv)
  from this [of data] this [of "sort_key (time_key h) data"] None show ?thesis
    by (simp add: Array_sort_date [OF assms])
next
  case (Some x)
  have eq: "filter (\<lambda>v. getUnixTimestamp h (Date v) = Some x) xs
              = filter (\<lambda>v. time_key h v = - x) xs"
    if "set xs = set data" for xs
    by (rule filter_cong [OF refl])
       (use that valid_datesD [OF assms] in \<open>auto simp: time_key_def\<close>)
  show ?thesis
    using eq [of data] eq [of "sort_key (time_key h) data"] Some
      sort_key_stable [of "time_key h" "- x" data]
    by (simp add: Array_sort_date [OF assms])
qed

lemma mset_date_descending:
  assumes "valid_dates h data"
  shows "mset (Array_sort (date_descending h) data) = mset data"
  by (simp add: Array_sort_date [OF assms])

lemma head_date_descending:
  assumes "valid_dates h data" "data \<noteq> []"
  shows "\<exists>e rest. Array_sort (date_descending h) data = e # rest \<and> e \<in> set data \<and>
           (\<forall>v\<in>set data. not_after h v e)"
proof -
  let ?s = "Array_sort (date_descending h) data"
  have m: "mset ?s = mset data" by (rule mset_date_descending [OF assms(1)])
  then have st: "set ?s = set data" by (metis set_mset_mset)
  from m assms(2) have "?s \<noteq> []" by (metis mset_zero_iff)
  then obtain e rest where s: "?s = e # rest" by (cases ?s) auto
  have ord: "sorted_wrt (\<lambda>a b. not_after h b a) (e # rest)"
    using sorted_date_descending [OF assms(1)] s by simp
  have e: "e \<in> set data" using st s by auto
  then have "not_after h e e"
    using valid_datesD [OF assms(1)] by (auto simp: not_after_def)
  with ord have "\<forall>v\<in>set (e # rest). not_after h v e" by auto
  with st s e show ?thesis by auto
qed

subsection \<open>What the render loops append\<close>

lemma foldl_rankList:
  "foldl (\<lambda>q v. q\<lparr>rankList := appendChild (rankList q) (g v)\<rparr>) p xs
     = p\<lparr>rankList := rankList p @ map g xs\<rparr>"
  by (induction xs arbitrary: p) (simp_all add: appendChild_def)

lemma foldl_deathsList:
  "foldl (\<lambda>q v. q\<lparr>deathsList := appendChild (deathsList q) (g v)\<rparr>) p xs
     = p\<lparr>deathsList := deathsList p @ map g xs\<rparr>"
  by (induction xs arbitrary: p) (simp_all add: appendChild_def)

lemma foldl_recoveredList:
  "foldl (\<lambda>q v. q\<lparr>recoveredList := appendChild (recoveredList q) (g v)\<rparr>) p xs
     = p\<lparr>recoveredList := recoveredList p @ map g xs\<rparr>"
  by (induction xs arbitrary: p) (simp_all add: appendChild_def)

lemma example_dates [simp]:
  "getUnixTimestamp example_host (Date jan1) = Some 1609459200000"
  "getUnixTimestamp example_host (Date jan2) = Some 1609545600000"
  by (simp_all add: getUnixTimestamp_def example_host_def jan1_def jan2_def)

lemma not_after_examples [simp]:
  "not_after example_host jan1 jan2" "not_after example_host jan2 jan2"
  "not_after example_host jan1 jan1" "\<not> not_after example_host jan2 jan1"
  by (simp_all add: not_after_def)

lemma Number_toString_9: "Number_toString 9 = ''9''"
  by (simp add: Number_toString_def nat_toString.simps)

subsection \<open>The counters of a country\<close>

text \<open>
  Claim C4. On an empty response \<open>setTotalDeathsByCountry\<close> and
  \<open>setTotalRecoveredByCountry\<close> have no result: \<open>data[0]\<close> reads past the end of the
  array, and taking \<open>Cases\<close> of what it finds throws. The page is left as it was.
\<close>

theorem country_counter_empty:
  "setTotalDeathsByCountry [] p = (Some TypeError, p) \<and>
   setTotalRecoveredByCountry [] p = (Some TypeError, p)"
  by (simp add: setTotalDeathsByCountry_def setTotalRecoveredByCountry_def)

subsection \<open>The order of the lists\<close>

text \<open>
  Claim C6. The items \<open>setCountryRanksByConfirmedCases\<close> appends to the rank list
  are those of the sorted countries, one for one and in their order; the sorted
  countries are the countries of the response, in non-increasing order of
  \<open>TotalConfirmed\<close>; and countries with the same count keep the order they had in
  the response.
\<close>

theorem rank_list_sorted_stable:
  "case setCountryRanksByConfirmedCases data p of
     (data', p') \<Rightarrow>
       rankList p' = rankList p @ map rank_item (Countries data') \<and>
       sorted_wrt (\<lambda>a b. TotalConfirmed b \<le> TotalConfirmed a) (Countries data') \<and>
       mset (Countries data') = mset (Countries data) \<and>
       (\<forall>n. filter (\<lambda>c. TotalConfirmed c = n) (Countries data')
              = filter (\<lambda>c. TotalConfirmed c = n) (Countries data))"
proof -
  let ?f = "\<lambda>c. - TotalConfirmed c"
  let ?s = "sort_key ?f (Countries data)"
  have "sorted (map ?f ?s)" by (rule sorted_sort_key)
  then have ord: "sorted_wrt (\<lambda>a b. TotalConfirmed b \<le> TotalConfirmed a) ?s"
    by (simp only: sorted_neg_key)
  have stable: "filter (\<lambda>c. TotalConfirmed c = n) ?s
                  = filter (\<lambda>c. TotalConfirmed c = n) (Countries data)" for n
    using sort_key_stable [of ?f "- n" "Countries data"] by simp
  show ?thesis
    using ord stable
    by (simp add: setCountryRanksByConfirmedCases_def Let_def foldl_rankList Array_sort_confirmed)
qed

text \<open>
  Claim C7. When every entry of the response carries a date the host can read,
  the items \<open>setDeathsList\<close> and \<open>setRecoveredList\<close> append are those of the sorted
  entries, one for one and in their order; the sorted entries are the entries of the
  response, in non-increasing order of date; and entries of the same date keep the
  order they had in the response.
\<close>

theorem detail_lists_sorted_stable:
  assumes "valid_dates h data"
  shows "(case setDeathsList h data p of
            (data', p') \<Rightarrow>
              deathsList p' = deathsList p @ map (detail_item h ''deaths'') data' \<and>
              sorted_wrt (\<lambda>a b. not_after h b a) data' \<and>
              mset data' = mset data \<and>
              (\<forall>t. filter (\<lambda>v. getUnixTimestamp h (Date v) = t) data'
                     = filter (\<lambda>v. getUnixTimestamp h (Date v) = t) data)) \<and>
         (case setRecoveredList h data p of
            (data', p') \<Rightarrow>
              recoveredList p' = recoveredList p @ map (detail_item h ''recovered'') data' \<and>
              sorted_wrt (\<lambda>a b. not_after h b a) data' \<and>
              mset data' = mset data \<and>
              (\<forall>t. filter (\<lambda>v. getUnixTimestamp h (Date v) = t) data'
                     = filter (\<lambda>v. getUnixTimestamp h (Date v) = t) data))"
  using sorted_date_descending [OF assms] stable_date_descending [OF assms]
    mset_date_descending [OF assms]
  by (simp add: setDeathsList_def setRecoveredList_def Let_def foldl_deathsList foldl_recoveredList)

theorem detail_lists_sorted_stable_witness:
  "valid_dates example_host [jan1, jan2] \<and>
   fst (setDeathsList example_host [jan1, jan2] initial_page) = [jan2, jan1] \<and>
   (case setDeathsList example_host [jan1, jan2] initial_page of
            (data', p') \<Rightarrow>
              deathsList p' = deathsList initial_page @ map (detail_item example_host ''deaths'') data' \<and>
              sorted_wrt (\<lambda>a b. not_after example_host b a) data' \<and>
              mset data' = mset [jan1, jan2] \<and>
              (\<forall>t. filter (\<lambda>v. getUnixTimestamp example_host (Date v) = t) data'
                     = filter (\<lambda>v. getUnixTimestamp example_host (Date v) = t) [jan1, jan2]))"
proof -
  have v: "valid_dates example_host [jan1, jan2]"
    by (simp add: valid_dates_def)
  have s: "fst (setDeathsList example_host [jan1, jan2] initial_page) = [jan2, jan1]"
    by (simp add: setDeathsList_def Let_def date_descending_def compare_value_def)
  show ?thesis
    by (rule conjI [OF v conjI [OF s conjunct1 [OF detail_lists_sorted_stable [OF v]]]])
qed

text \<open>
  Claim C8. In the handler the counter of a country is written from the array
  that \<open>setDeathsList\<close> (or \<open>setRecoveredList\<close>) has just sorted in place, so it shows
  the count of the entry with the most recent date, wherever that entry stood in the
  response: if \<open>e\<close> is an entry of the response, no entry is dated after \<open>e\<close>, and the
  entries dated as late as \<open>e\<close> carry its count, then the counter is the count of \<open>e\<close>.
  (By itself \<open>setTotalDeathsByCountry\<close> reads the first element of the array it is
  given.) The example of the claim follows the theorem: the entries of 1 and 2
  January 2021 with the counts 5 and 9 give 9 in either order.
\<close>

theorem country_counter_most_recent:
  assumes "valid_dates h data" and "e \<in> set data"
    and "\<forall>v\<in>set data. not_after h v e"
    and "\<forall>v\<in>set data. not_after h e v \<longrightarrow> Cases v = Cases e"
  shows "(case setDeathsList h data p of
            (data', p') \<Rightarrow>
              setTotalDeathsByCountry data' p'
                = (None, p'\<lparr>deathsTotal := Number_toString (Cases e)\<rparr>)) \<and>
         (case setRecoveredList h data p of
            (data', p') \<Rightarrow>
              setTotalRecoveredByCountry data' p'
                = (None, p'\<lparr>recoveredTotal := Number_toString (Cases e)\<rparr>))"
proof -
  from assms(2) have "data \<noteq> []" by auto
  from head_date_descending [OF assms(1) this] obtain e' rest
    where s: "Array_sort (date_descending h) data = e' # rest"
      and e': "e' \<in> set data" and "\<forall>v\<in>set data. not_after h v e'"
    by blast
  with assms(2) have "not_after h e e'" by blast
  with assms(4) e' have c: "Cases e' = Cases e" by blast
  show ?thesis
    by (simp add: setDeathsList_def setRecoveredList_def Let_def
        setTotalDeathsByCountry_def setTotalRecoveredByCountry_def s c)
qed

theorem country_counter_most_recent_witness:
  "valid_dates example_host [jan1, jan2] \<and> valid_dates example_host [jan2, jan1] \<and>
   jan2 \<in> set [jan1, jan2] \<and> jan2 \<in> set [jan2, jan1] \<and>
   not_after example_host jan1 jan2 \<and> not_after example_host jan2 jan2 \<and>
   \<not> not_after example_host jan2 jan1 \<and>
   (case setDeathsList example_host [jan1, jan2] initial_page of
      (data', p') \<Rightarrow>
        setTotalDeathsByCountry data' p' = (None, p'\<lparr>deathsTotal := ''9''\<rparr>)) \<and>
   (case setDeathsList example_host [jan2, jan1] initial_page of
      (data', p') \<Rightarrow>
        setTotalDeathsByCountry data' p' = (None, p'\<lparr>deathsTotal := ''9''\<rparr>)) \<and>
   (case setRecoveredList example_host [jan1, jan2] initial_page of
      (data', p') \<Rightarrow>
        setTotalRecoveredByCountry data' p' = (None, p'\<lparr>recoveredTotal := ''9''\<rparr>)) \<and>
   (case setRecoveredList example_host [jan2, jan1] initial_page of
      (data', p') \<Rightarrow>
        setTotalRecoveredByCountry data' p' = (None, p'\<lparr>recoveredTotal := ''9''\<rparr>))"
proof -
  have v: "valid_dates example_host [jan1, jan2]" "valid_dates example_host [jan2, jan1]"
    by (simp_all add: valid_dates_def)
  have c: "Number_toString (Cases jan2) = ''9''"
    by (simp add: jan2_def Number_toString_9)
  have m: "jan2 \<in> set [jan1, jan2]" "jan2 \<in> set [jan2, jan1]" by simp_all
  have l: "\<forall>v\<in>set [jan1, jan2]. not_after example_host v jan2"
    "\<forall>v\<in>set [jan2, jan1]. not_after example_host v jan2" by simp_all
  have u: "\<forall>v\<in>set [jan1, jan2]. not_after example_host jan2 v \<longrightarrow> Cases v = Cases jan2"
    "\<forall>v\<in>set [jan2, jan1]. not_after example_host jan2 v \<longrightarrow> Cases v = Cases jan2" by simp_all
  note t1 = country_counter_most_recent [OF v(1) m(1) l(1) u(1), of initial_page, unfolded c]
  note t2 = country_counter_most_recent [OF v(2) m(2) l(2) u(2), of initial_page, unfolded c]
  have n: "not_after example_host jan1 jan2" "not_after example_host jan2 jan2"
    "\<not> not_after example_host jan2 jan1" by simp_all
  show ?thesis
    by (intro conjI v m n t1 [THEN conjunct1] t1 [THEN conjunct2]
        t2 [THEN conjunct1] t2 [THEN conjunct2])
qed

subsection \<open>The summary response after the rank list is rendered\<close>

text \<open>
  Claim C5, as stated, fails: \<open>setCountryRanksByConfirmedCases\<close> sorts
  \<open>data.Countries\<close> in place, so a response whose countries are not in
  non-increasing order of \<open>TotalConfirmed\<close> leaves the call with its countries
  reordered.
\<close>

theorem rank_list_input_counterexample:
  "fst (setCountryRanksByConfirmedCases
          \<lparr>Countries = [country ''a'' 1, country ''b'' 2], ReportDate = ''2021-01-02''\<rparr>
          initial_page)
     = \<lparr>Countries = [country ''b'' 2, country ''a'' 1], ReportDate = ''2021-01-02''\<rparr> \<and>
   fst (setCountryRanksByConfirmedCases
          \<lparr>Countries = [country ''a'' 1, country ''b'' 2], ReportDate = ''2021-01-02''\<rparr>
          initial_page)
     \<noteq> \<lparr>Countries = [country ''a'' 1, country ''b'' 2], ReportDate = ''2021-01-02''\<rparr>"
  by (simp add: setCountryRanksByConfirmedCases_def Let_def confirmed_descending_def
      compare_value_def country_def)

text \<open>
  Claim C5, amended. Rendering the rank list changes nothing of the response but
  the order of its countries: the report date is the same, the countries are the
  same records, now in non-increasing order of \<open>TotalConfirmed\<close>, and the response
  is unchanged exactly when its countries were in that order already.
\<close>

theorem rank_list_reorders_input:
  "case setCountryRanksByConfirmedCases data p of
     (data', p') \<Rightarrow>
       ReportDate data' = ReportDate data \<and>
       mset (Countries data') = mset (Countries data) \<and>
       sorted_wrt (\<lambda>a b. TotalConfirmed b \<le> TotalConfirmed a) (Countries data') \<and>
       (data' = data) = sorted_wrt (\<lambda>a b. TotalConfirmed b \<le> TotalConfirmed a) (Countries data)"
proof -
  let ?f = "\<lambda>c. - TotalConfirmed c"
  let ?cs = "Countries data"
  have ord: "sorted (map ?f (sort_key ?f ?cs))" by (rule sorted_sort_key)
  have "(sort_key ?f ?cs = ?cs) = sorted (map ?f ?cs)"
  proof
    assume "sort_key ?f ?cs = ?cs"
    with ord show "sorted (map ?f ?cs)" by simp
  next
    assume "sorted (map ?f ?cs)"
    then show "sort_key ?f ?cs = ?cs" by (rule sort_key_id_if_sorted)
  qed
  then have same: "(sort_key ?f ?cs = ?cs) = sorted_wrt (\<lambda>a b. TotalConfirmed b \<le> TotalConfirmed a) ?cs"
    by (simp only: sorted_neg_key)
  have upd: "(data\<lparr>Countries := xs\<rparr> = data) = (xs = ?cs)" for xs
    by (cases data) auto
  from ord have ord': "sorted_wrt (\<lambda>a b. TotalConfirmed b \<le> TotalConfirmed a) (sort_key ?f ?cs)"
    by (simp only: sorted_neg_key)
  show ?thesis
    using ord'
    by (simp add: setCountryRanksByConfirmedCases_def Let_def Array_sort_confirmed upd same)
qed

subsection \<open>The chart\<close>


lemma setChartData_occupied:
  "charts p \<noteq> [] \<Longrightarrow> setChartData h data p = (Some CanvasInUse, p)"
  by (simp add: setChartData_def renderChart_def Let_def)




subsection \<open>The click handler and the event loop\<close>

lemma handleListClick_loading:
  assumes "isDeathLoading p"
  shows "snd (handleListClick t p) = p" and "suspended (fst (handleListClick t p)) = []"
  using assms by (simp_all add: handleListClick_def suspended_def split: sum.split)

lemma handleListClick_idle:
  assumes "\<not> isDeathLoading p" and "selectedId_of t = Inr key"
  shows "handleListClick t p =
           (Suspended (AwaitDeaths key),
            p\<lparr>isDeathLoading := True, deathsList := [deathSpinner],
              recoveredList := [recoveredSpinner],
              requests := requests p @ [fetchCountryInfo_url key Deaths]\<rparr>)"
  using assms
  by (simp add: handleListClick_def clearDeathList_def clearRecoveredList_def
      startLoadingAnimation_def appendChild_def fetchCountryInfo_def Let_def)

lemma handleListClick_flag:
  assumes "handleListClick t p = (Suspended k, q)"
  shows "isDeathLoading q"
  using assms
  by (auto simp: handleListClick_def fetchCountryInfo_def Let_def split: sum.splits if_splits)

lemma render_responses_not_suspended:
  "suspended (fst (render_responses h d r c p)) = []"
  by (simp add: render_responses_def suspended_def Let_def split: prod.split option.split)

lemma resume_flag:
  assumes "resume h k r p = (Suspended k', q)"
  shows "isDeathLoading q = isDeathLoading p"
proof (cases r)
  case (Rejected e)
  with assms show ?thesis by simp
next
  case (Fulfilled x)
  show ?thesis
  proof (cases k)
    case (AwaitConfirmed key d r')
    with Fulfilled assms render_responses_not_suspended [of h d r' x p] show ?thesis
      by (simp add: suspended_def)
  qed (use Fulfilled assms in \<open>auto simp: fetchCountryInfo_def\<close>)
qed

lemma length_suspended: "length (suspended out) \<le> 1"
  by (simp add: suspended_def split: outcome.split)

lemma suspended_eq: "suspended out \<noteq> [] \<Longrightarrow> \<exists>k. out = Suspended k"
  by (cases out) (simp_all add: suspended_def)

lemma deliver_loading_click:
  assumes "isDeathLoading (document b)"
  shows "deliver h (Click t) b = b"
  using handleListClick_loading [OF assms, of t]
  by (simp add: split_beta)

lemma deliver_one_in_flight:
  assumes "one_in_flight b"
  shows "one_in_flight (deliver h ev b)"
proof (cases ev)
  case (Click t)
  show ?thesis
  proof (cases "isDeathLoading (document b)")
    case True
    with assms Click show ?thesis by (simp add: deliver_loading_click del: deliver.simps)
  next
    case False
    with assms have e: "pending b = []" by (simp add: one_in_flight_def)
    obtain out q where o: "handleListClick t (document b) = (out, q)" by fastforce
    have "suspended out = [] \<or> isDeathLoading q"
      using suspended_eq [of out] handleListClick_flag [of t "document b" _ q] o by blast
    with e o Click length_suspended [of out] show ?thesis
      by (simp add: one_in_flight_def)
  qed
next
  case (Settle i r)
  show ?thesis
  proof (cases "i < length (pending b)")
    case False
    with assms Settle show ?thesis by simp
  next
    case True
    with assms have i: "i = 0" and l: "isDeathLoading (document b)"
      by (auto simp: one_in_flight_def)
    from True assms i obtain k where k: "pending b = [k]"
      by (cases "pending b") (auto simp: one_in_flight_def)
    obtain out q where o: "resume h k r (document b) = (out, q)" by fastforce
    have "suspended out = [] \<or> isDeathLoading q"
      using suspended_eq [of out] resume_flag [of h k r "document b" _ q] o l by blast
    with k o i Settle length_suspended [of out] show ?thesis
      by (simp add: one_in_flight_def)
  qed
qed

lemma run_one_in_flight:
  "one_in_flight b \<Longrightarrow> one_in_flight (run h events b)"
  unfolding run_def
  by (induction events arbitrary: b) (simp_all add: deliver_one_in_flight)

lemma deliver_stuck:
  assumes "isDeathLoading (document b)" and "pending b = []"
  shows "deliver h ev b = b"
  using assms by (cases ev) (simp_all add: deliver_loading_click del: deliver.simps(1))

lemma run_stuck:
  assumes "isDeathLoading (document b)" and "pending b = []"
  shows "run h events b = b"
  unfolding run_def using assms
  by (induction events) (simp_all add: deliver_stuck del: deliver.simps)

lemma selectedId_examples [simp]:
  "selectedId_of thailand_target = Inr (Some ''thailand'')"
  "selectedId_of india_target = Inr (Some ''india'')"
  "selectedId_of rank_list_target = Inr None"
  by (simp_all add: selectedId_of_def thailand_target_def india_target_def rank_list_target_def)

lemma initial_idle [simp]: "\<not> isDeathLoading initial_page"
  by (simp add: initial_page_def)

lemma click_thailand:
  "deliver h (Click thailand_target) initial_browser =
     \<lparr>document = initial_page
        \<lparr>isDeathLoading := True, deathsList := [deathSpinner],
          recoveredList := [recoveredSpinner],
          requests := [''https://api.covid19api.com/country/thailand/status/deaths'']\<rparr>,
      pending = [AwaitDeaths (Some ''thailand'')]\<rparr>"
  by (simp add: initial_browser_def handleListClick_idle [where key = "Some ''thailand''"]
      suspended_def fetchCountryInfo_url_def) (simp add: initial_page_def)

lemma charts_endLoadingAnimation [simp]:
  "charts (snd (endLoadingAnimation p)) = charts p"
  "isDeathLoading (snd (endLoadingAnimation p)) = isDeathLoading p"
  by (simp_all add: endLoadingAnimation_def Let_def)

lemma charts_setDeathsList [simp]:
  "charts (snd (setDeathsList h d p)) = charts p"
  "isDeathLoading (snd (setDeathsList h d p)) = isDeathLoading p"
  by (simp_all add: setDeathsList_def Let_def foldl_deathsList)

lemma charts_setRecoveredList [simp]:
  "charts (snd (setRecoveredList h d p)) = charts p"
  "isDeathLoading (snd (setRecoveredList h d p)) = isDeathLoading p"
  by (simp_all add: setRecoveredList_def Let_def foldl_recoveredList)

lemma charts_setTotalDeathsByCountry [simp]:
  "charts (snd (setTotalDeathsByCountry d p)) = charts p"
  "isDeathLoading (snd (setTotalDeathsByCountry d p)) = isDeathLoading p"
  by (simp_all add: setTotalDeathsByCountry_def split: list.split)

lemma charts_setTotalRecoveredByCountry [simp]:
  "charts (snd (setTotalRecoveredByCountry d p)) = charts p"
  "isDeathLoading (snd (setTotalRecoveredByCountry d p)) = isDeathLoading p"
  by (simp_all add: setTotalRecoveredByCountry_def split: list.split)

text \<open>
  Once a chart is on the canvas, lines 76 to 82 do not run to their end: the
  handler throws, at line 81 at the latest, and leaves the flag set.
\<close>

lemma render_responses_occupied:
  assumes "charts p \<noteq> []"
  shows "\<exists>e. fst (render_responses h d r c p) = Threw e"
    and "isDeathLoading (snd (render_responses h d r c p)) = isDeathLoading p"
proof -
  obtain e1 p1 where 1: "endLoadingAnimation p = (e1, p1)" by fastforce
  obtain d' p2 where 2: "setDeathsList h d p1 = (d', p2)" by fastforce
  obtain e3 p3 where 3: "setTotalDeathsByCountry d' p2 = (e3, p3)" by fastforce
  obtain r' p4 where 4: "setRecoveredList h r p3 = (r', p4)" by fastforce
  obtain e5 p5 where 5: "setTotalRecoveredByCountry r' p4 = (e5, p5)" by fastforce
  have c1: "charts p1 = charts p" "isDeathLoading p1 = isDeathLoading p"
    using charts_endLoadingAnimation [of p] 1 by simp_all
  have c2: "charts p2 = charts p1" "isDeathLoading p2 = isDeathLoading p1"
    using charts_setDeathsList [of h d p1] 2 by simp_all
  have c3: "charts p3 = charts p2" "isDeathLoading p3 = isDeathLoading p2"
    using charts_setTotalDeathsByCountry [of d' p2] 3 by simp_all
  have c4: "charts p4 = charts p3" "isDeathLoading p4 = isDeathLoading p3"
    using charts_setRecoveredList [of h r p3] 4 by simp_all
  have c5: "charts p5 = charts p4" "isDeathLoading p5 = isDeathLoading p4"
    using charts_setTotalRecoveredByCountry [of r' p4] 5 by simp_all
  from assms c1 c2 c3 c4 c5 have "charts p5 \<noteq> []" by simp
  then have 6: "setChartData h c p5 = (Some CanvasInUse, p5)" by (rule setChartData_occupied)
  show "\<exists>e. fst (render_responses h d r c p) = Threw e"
    by (simp add: render_responses_def 1 2 3 4 5 6 split: option.split)
  show "isDeathLoading (snd (render_responses h d r c p)) = isDeathLoading p"
    by (simp add: render_responses_def 1 2 3 4 5 6 c1 c2 c3 c4 c5 split: option.split)
qed

lemma deliver_confirmed_occupied:
  assumes "charts (document b) \<noteq> []" and "isDeathLoading (document b)"
    and "pending b = [AwaitConfirmed key d r]"
  shows "pending (deliver h (Settle 0 (Fulfilled c)) b) = []"
    and "isDeathLoading (document (deliver h (Settle 0 (Fulfilled c)) b))"
proof -
  obtain out q where o: "render_responses h d r c (document b) = (out, q)" by fastforce
  from render_responses_occupied [OF assms(1), of h d r c] o assms(2)
  obtain e where "out = Threw e" and "isDeathLoading q" by auto
  with o assms(3) show "pending (deliver h (Settle 0 (Fulfilled c)) b) = []"
    and "isDeathLoading (document (deliver h (Settle 0 (Fulfilled c)) b))"
    by (simp_all add: suspended_def)
qed

text \<open>
  Claim C2. A click that arrives while the loading flag is set changes nothing:
  the handler returns (or throws) before its first \<^verbatim>\<open>await\<close> with the page as
  it was, so nothing is cleared, no item is appended and no request is sent, and
  the browser is after the click what it was before. Hence at most one run of the
  handler waits for a response at any time, and the flag is set while one does:
  that holds before the first event and every event keeps it.
\<close>

theorem overlap_guard:
  "(isDeathLoading p \<longrightarrow>
      snd (handleListClick t p) = p \<and> (\<forall>k. fst (handleListClick t p) \<noteq> Suspended k)) \<and>
   (isDeathLoading (document b) \<longrightarrow> deliver h (Click t) b = b) \<and>
   (one_in_flight b \<longrightarrow> one_in_flight (run h events b))"
proof -
  have "fst (handleListClick t p) \<noteq> Suspended k" if "isDeathLoading p" for k
    using handleListClick_loading(2) [OF that, of t] by (auto simp: suspended_def)
  then show ?thesis
    by (simp add: handleListClick_loading(1) deliver_loading_click run_one_in_flight
        del: deliver.simps)
qed

theorem overlap_guard_witness:
  "isDeathLoading (document (deliver example_host (Click thailand_target) initial_browser)) \<and>
   one_in_flight initial_browser \<and>
   run example_host [Click thailand_target, Click india_target] initial_browser
     = deliver example_host (Click thailand_target) initial_browser \<and>
   requests (document (run example_host [Click thailand_target, Click india_target] initial_browser))
     = [''https://api.covid19api.com/country/thailand/status/deaths''] \<and>
   one_in_flight (run example_host [Click thailand_target, Click india_target] initial_browser)"
proof -
  let ?b = "deliver example_host (Click thailand_target) initial_browser"
  have l: "isDeathLoading (document ?b)"
    by (simp only: click_thailand) simp
  have i: "one_in_flight initial_browser"
    by (simp add: one_in_flight_def initial_browser_def)
  note g = overlap_guard [of "document ?b" india_target ?b example_host "[]"]
  note f = overlap_guard [of initial_page thailand_target initial_browser example_host
      "[Click thailand_target, Click india_target]"]
  from g l have s: "deliver example_host (Click india_target) ?b = ?b" by blast
  have r: "run example_host [Click thailand_target, Click india_target] initial_browser
             = deliver example_host (Click india_target) ?b"
    by (simp add: run_def del: deliver.simps)
  have q: "requests (document ?b) = [''https://api.covid19api.com/country/thailand/status/deaths'']"
    by (simp only: click_thailand) simp
  from f i have o: "one_in_flight (run example_host [Click thailand_target, Click india_target] initial_browser)"
    by blast
  from l i s r q o show ?thesis by (simp del: deliver.simps)
qed

text \<open>
  Claim C3. A click arrives while the flag is clear, and the first, the second or
  the third of its requests is rejected (those before it having been answered).
  Then the page is the page before the click but for the flag, which is set, the two
  detail lists, which hold their spinner and nothing else, and the requests sent;
  no run of the handler is left; and whatever events follow, clicks included, the
  browser stays as it is.
\<close>

theorem failed_fetch_locks_page:
  assumes "\<not> isDeathLoading p" and "selectedId_of t = Inr key"
    and "events = [Click t, Settle 0 (Rejected e)] \<or>
         events = [Click t, Settle 0 (Fulfilled d), Settle 0 (Rejected e)] \<or>
         events = [Click t, Settle 0 (Fulfilled d), Settle 0 (Fulfilled r), Settle 0 (Rejected e)]"
  shows "\<exists>sent. run h events \<lparr>document = p, pending = []\<rparr>
                  = \<lparr>document = p\<lparr>isDeathLoading := True, deathsList := [deathSpinner],
                                  recoveredList := [recoveredSpinner],
                                  requests := requests p @ sent\<rparr>,
                     pending = []\<rparr> \<and>
                (\<forall>later. run h later (run h events \<lparr>document = p, pending = []\<rparr>)
                           = run h events \<lparr>document = p, pending = []\<rparr>)"
proof -
  let ?b = "run h events \<lparr>document = p, pending = []\<rparr>"
  have "\<exists>sent. ?b = \<lparr>document = p\<lparr>isDeathLoading := True, deathsList := [deathSpinner],
                                  recoveredList := [recoveredSpinner],
                                  requests := requests p @ sent\<rparr>,
                     pending = []\<rparr>"
    using assms(3)
    by (auto simp: run_def handleListClick_idle [OF assms(1,2)] suspended_def
        fetchCountryInfo_def)
  then obtain sent where b: "?b = \<lparr>document = p\<lparr>isDeathLoading := True, deathsList := [deathSpinner],
                                  recoveredList := [recoveredSpinner],
                                  requests := requests p @ sent\<rparr>,
                     pending = []\<rparr>" ..
  then have "isDeathLoading (document ?b)" "pending ?b = []" by simp_all
  then have "run h later ?b = ?b" for later by (rule run_stuck)
  with b show ?thesis by blast
qed

theorem failed_fetch_locks_page_witness:
  "\<not> isDeathLoading initial_page \<and>
   selectedId_of thailand_target = Inr (Some ''thailand'') \<and>
   run example_host
       [Click thailand_target, Settle 0 (Fulfilled [jan1]), Settle 0 (Rejected NetworkError)]
       initial_browser
     = \<lparr>document = initial_page
          \<lparr>isDeathLoading := True, deathsList := [deathSpinner],
            recoveredList := [recoveredSpinner],
            requests := [''https://api.covid19api.com/country/thailand/status/deaths'',
                         ''https://api.covid19api.com/country/thailand/status/recovered'']\<rparr>,
        pending = []\<rparr> \<and>
   run example_host [Click india_target, Settle 0 (Fulfilled [jan2])]
       (run example_host
          [Click thailand_target, Settle 0 (Fulfilled [jan1]), Settle 0 (Rejected NetworkError)]
          initial_browser)
     = run example_host
         [Click thailand_target, Settle 0 (Fulfilled [jan1]), Settle 0 (Rejected NetworkError)]
         initial_browser"
proof -
  let ?events = "[Click thailand_target, Settle 0 (Fulfilled [jan1]), Settle 0 (Rejected NetworkError)]"
  have i: "\<not> isDeathLoading initial_page" by simp
  have k: "selectedId_of thailand_target = Inr (Some ''thailand'')" by simp
  have e: "?events = [Click thailand_target, Settle 0 (Rejected NetworkError)] \<or>
           ?events = [Click thailand_target, Settle 0 (Fulfilled [jan1]), Settle 0 (Rejected NetworkError)] \<or>
           ?events = [Click thailand_target, Settle 0 (Fulfilled [jan1]), Settle 0 (Fulfilled r), Settle 0 (Rejected NetworkError)]"
    for r by simp
  from failed_fetch_locks_page [OF i k e, of example_host]
  have later: "run example_host later (run example_host ?events initial_browser)
                 = run example_host ?events initial_browser" for later
    unfolding initial_browser_def by blast
  have b: "run example_host ?events initial_browser
     = \<lparr>document = initial_page
          \<lparr>isDeathLoading := True, deathsList := [deathSpinner],
            recoveredList := [recoveredSpinner],
            requests := [''https://api.covid19api.com/country/thailand/status/deaths'',
                         ''https://api.covid19api.com/country/thailand/status/recovered'']\<rparr>,
        pending = []\<rparr>"
    by (simp add: run_def click_thailand suspended_def fetchCountryInfo_def
        fetchCountryInfo_url_def del: deliver.simps(1))
  show ?thesis
    by (intro conjI i k b later)
qed

text \<open>
  Claim C1, as stated, fails: when the handler reaches its first \<^verbatim>\<open>await\<close>,
  one request has been sent, the one for the deaths, not three.
\<close>

theorem parallel_fetch_counterexample:
  "fst (handleListClick thailand_target initial_page) = Suspended (AwaitDeaths (Some ''thailand'')) \<and>
   requests (snd (handleListClick thailand_target initial_page))
     = [''https://api.covid19api.com/country/thailand/status/deaths''] \<and>
   length (requests (snd (handleListClick thailand_target initial_page))) \<noteq> 3"
  by (simp add: handleListClick_idle [where key = "Some ''thailand''"] fetchCountryInfo_url_def)
     (simp add: initial_page_def)

text \<open>
  Claim C1, amended. The handler sends its three requests one after another, in
  the order deaths, recovered, confirmed, each when the response to the one before
  has arrived; while it waits the page shows the two spinners and nothing of the
  responses, and what lines 76 to 82 render is rendered when the third response has
  arrived.
\<close>

theorem fetches_in_sequence:
  assumes "\<not> isDeathLoading p" and "selectedId_of t = Inr key"
  shows
    "let waiting = p\<lparr>isDeathLoading := True, deathsList := [deathSpinner],
                      recoveredList := [recoveredSpinner]\<rparr>;
         b1 = deliver h (Click t) \<lparr>document = p, pending = []\<rparr>;
         b2 = deliver h (Settle 0 (Fulfilled deathResponse)) b1;
         b3 = deliver h (Settle 0 (Fulfilled recoveredResponse)) b2;
         b4 = deliver h (Settle 0 (Fulfilled confirmedResponse)) b3
     in b1 = \<lparr>document = waiting\<lparr>requests := requests p @ [fetchCountryInfo_url key Deaths]\<rparr>,
              pending = [AwaitDeaths key]\<rparr> \<and>
        b2 = \<lparr>document = waiting\<lparr>requests := requests p @
                  [fetchCountryInfo_url key Deaths, fetchCountryInfo_url key Recovered]\<rparr>,
              pending = [AwaitRecovered key deathResponse]\<rparr> \<and>
        b3 = \<lparr>document = waiting\<lparr>requests := requests p @
                  [fetchCountryInfo_url key Deaths, fetchCountryInfo_url key Recovered,
                   fetchCountryInfo_url key Confirmed]\<rparr>,
              pending = [AwaitConfirmed key deathResponse recoveredResponse]\<rparr> \<and>
        b4 = \<lparr>document = snd (render_responses h deathResponse recoveredResponse
                                  confirmedResponse (document b3)),
              pending = []\<rparr>"
  using render_responses_not_suspended
          [of h deathResponse recoveredResponse confirmedResponse]
  by (simp add: Let_def handleListClick_idle [OF assms] suspended_def fetchCountryInfo_def
      split_beta)

theorem fetches_in_sequence_witness:
  "\<not> isDeathLoading initial_page \<and>
   selectedId_of thailand_target = Inr (Some ''thailand'') \<and>
   run example_host [Click thailand_target] initial_browser
     = \<lparr>document = initial_page
          \<lparr>isDeathLoading := True, deathsList := [deathSpinner],
            recoveredList := [recoveredSpinner],
            requests := [''https://api.covid19api.com/country/thailand/status/deaths'']\<rparr>,
        pending = [AwaitDeaths (Some ''thailand'')]\<rparr> \<and>
   run example_host [Click thailand_target, Settle 0 (Fulfilled [jan1, jan2])] initial_browser
     = \<lparr>document = initial_page
          \<lparr>isDeathLoading := True, deathsList := [deathSpinner],
            recoveredList := [recoveredSpinner],
            requests := [''https://api.covid19api.com/country/thailand/status/deaths'',
                         ''https://api.covid19api.com/country/thailand/status/recovered'']\<rparr>,
        pending = [AwaitRecovered (Some ''thailand'') [jan1, jan2]]\<rparr> \<and>
   run example_host
       [Click thailand_target, Settle 0 (Fulfilled [jan1, jan2]), Settle 0 (Fulfilled [jan1])]
       initial_browser
     = \<lparr>document = initial_page
          \<lparr>isDeathLoading := True, deathsList := [deathSpinner],
            recoveredList := [recoveredSpinner],
            requests := [''https://api.covid19api.com/country/thailand/status/deaths'',
                         ''https://api.covid19api.com/country/thailand/status/recovered'',
                         ''https://api.covid19api.com/country/thailand/status/confirmed'']\<rparr>,
        pending = [AwaitConfirmed (Some ''thailand'') [jan1, jan2] [jan1]]\<rparr>"
proof -
  have i: "\<not> isDeathLoading initial_page" by simp
  have k: "selectedId_of thailand_target = Inr (Some ''thailand'')" by simp
  have r: "requests initial_page = []" by (simp add: initial_page_def)
  note s = fetches_in_sequence [OF i k, of example_host "[jan1, jan2]" "[jan1]" "[]",
      unfolded Let_def, folded initial_browser_def]
  have 1: "run example_host [Click thailand_target] initial_browser
             = deliver example_host (Click thailand_target) initial_browser"
    by (simp add: run_def del: deliver.simps)
  have 2: "run example_host [Click thailand_target, Settle 0 (Fulfilled [jan1, jan2])] initial_browser
             = deliver example_host (Settle 0 (Fulfilled [jan1, jan2]))
                 (deliver example_host (Click thailand_target) initial_browser)"
    by (simp add: run_def del: deliver.simps)
  have 3: "run example_host
             [Click thailand_target, Settle 0 (Fulfilled [jan1, jan2]), Settle 0 (Fulfilled [jan1])]
             initial_browser
             = deliver example_host (Settle 0 (Fulfilled [jan1]))
                 (deliver example_host (Settle 0 (Fulfilled [jan1, jan2]))
                   (deliver example_host (Click thailand_target) initial_browser))"
    by (simp add: run_def del: deliver.simps)
  have a: "deliver example_host (Click thailand_target) initial_browser
     = \<lparr>document = initial_page
          \<lparr>isDeathLoading := True, deathsList := [deathSpinner],
            recoveredList := [recoveredSpinner],
            requests := [''https://api.covid19api.com/country/thailand/status/deaths'']\<rparr>,
        pending = [AwaitDeaths (Some ''thailand'')]\<rparr>"
    using s [THEN conjunct1] by (simp add: r fetchCountryInfo_url_def del: deliver.simps)
  have b: "deliver example_host (Settle 0 (Fulfilled [jan1, jan2]))
             (deliver example_host (Click thailand_target) initial_browser)
     = \<lparr>document = initial_page
          \<lparr>isDeathLoading := True, deathsList := [deathSpinner],
            recoveredList := [recoveredSpinner],
            requests := [''https://api.covid19api.com/country/thailand/status/deaths'',
                         ''https://api.covid19api.com/country/thailand/status/recovered'']\<rparr>,
        pending = [AwaitRecovered (Some ''thailand'') [jan1, jan2]]\<rparr>"
    using s [THEN conjunct2, THEN conjunct1]
    by (simp add: r fetchCountryInfo_url_def del: deliver.simps)
  have c: "deliver example_host (Settle 0 (Fulfilled [jan1]))
             (deliver example_host (Settle 0 (Fulfilled [jan1, jan2]))
               (deliver example_host (Click thailand_target) initial_browser))
     = \<lparr>document = initial_page
          \<lparr>isDeathLoading := True, deathsList := [deathSpinner],
            recoveredList := [recoveredSpinner],
            requests := [''https://api.covid19api.com/country/thailand/status/deaths'',
                         ''https://api.covid19api.com/country/thailand/status/recovered'',
                         ''https://api.covid19api.com/country/thailand/status/confirmed'']\<rparr>,
        pending = [AwaitConfirmed (Some ''thailand'') [jan1, jan2] [jan1]]\<rparr>"
    using s [THEN conjunct2, THEN conjunct2, THEN conjunct1]
    by (simp add: r fetchCountryInfo_url_def del: deliver.simps)
  show ?thesis
    unfolding 1 2 3 by (intro conjI i k a b c)
qed

text \<open>
  Claim C10, as stated, fails: a click on the rank list itself sends the request
  for the deaths of the country \<^verbatim>\<open>undefined\<close>, and when that request is rejected
  the handler ends having sent one request, not three.
\<close>

theorem undefined_key_counterexample:
  "run example_host [Click rank_list_target, Settle 0 (Rejected NetworkError)] initial_browser
     = \<lparr>document = initial_page
          \<lparr>isDeathLoading := True, deathsList := [deathSpinner],
            recoveredList := [recoveredSpinner],
            requests := [''https://api.covid19api.com/country/undefined/status/deaths'']\<rparr>,
        pending = []\<rparr> \<and>
   length (requests (document
      (run example_host [Click rank_list_target, Settle 0 (Rejected NetworkError)]
         initial_browser))) \<noteq> 3"
  by (simp add: run_def initial_browser_def handleListClick_idle [where key = None]
      suspended_def fetchCountryInfo_url_def)
     (simp add: initial_page_def)

text \<open>
  Claim C10, amended. While the flag is clear, a click whose target is neither a
  list item, a span nor a paragraph is not turned away: the handler clears both
  detail lists, shows the spinners, sets the flag and sends the request for the
  deaths with the country code \<^verbatim>\<open>undefined\<close>; the requests for the recovered and
  for the confirmed, with the same code, follow one by one as the response to the
  request before arrives.
\<close>

theorem undefined_key_click:
  assumes "\<not> isDeathLoading p"
    and "interface t \<noteq> HTMLLIElement" and "interface t \<noteq> HTMLSpanElement"
    and "interface t \<noteq> HTMLParagraphElement"
  shows
    "let waiting = p\<lparr>isDeathLoading := True, deathsList := [deathSpinner],
                      recoveredList := [recoveredSpinner]\<rparr>;
         b1 = deliver h (Click t) \<lparr>document = p, pending = []\<rparr>;
         b2 = deliver h (Settle 0 (Fulfilled deathResponse)) b1;
         b3 = deliver h (Settle 0 (Fulfilled recoveredResponse)) b2
     in b1 = \<lparr>document = waiting\<lparr>requests := requests p @
                  [''https://api.covid19api.com/country/undefined/status/deaths'']\<rparr>,
              pending = [AwaitDeaths None]\<rparr> \<and>
        b2 = \<lparr>document = waiting\<lparr>requests := requests p @
                  [''https://api.covid19api.com/country/undefined/status/deaths'',
                   ''https://api.covid19api.com/country/undefined/status/recovered'']\<rparr>,
              pending = [AwaitRecovered None deathResponse]\<rparr> \<and>
        b3 = \<lparr>document = waiting\<lparr>requests := requests p @
                  [''https://api.covid19api.com/country/undefined/status/deaths'',
                   ''https://api.covid19api.com/country/undefined/status/recovered'',
                   ''https://api.covid19api.com/country/undefined/status/confirmed'']\<rparr>,
              pending = [AwaitConfirmed None deathResponse recoveredResponse]\<rparr>"
proof -
  from assms(2-4) have k: "selectedId_of t = Inr None"
    by (simp add: selectedId_of_def)
  show ?thesis
    by (simp add: Let_def handleListClick_idle [OF assms(1) k] suspended_def
        fetchCountryInfo_def fetchCountryInfo_url_def)
qed

theorem undefined_key_click_witness:
  "\<not> isDeathLoading initial_page \<and>
   interface rank_list_target = HTMLOListElement \<and>
   deliver example_host (Click rank_list_target) initial_browser
     = \<lparr>document = initial_page
          \<lparr>isDeathLoading := True, deathsList := [deathSpinner],
            recoveredList := [recoveredSpinner],
            requests := [''https://api.covid19api.com/country/undefined/status/deaths'']\<rparr>,
        pending = [AwaitDeaths None]\<rparr>"
proof -
  have i: "\<not> isDeathLoading initial_page" by simp
  have t: "interface rank_list_target = HTMLOListElement" by (simp add: rank_list_target_def)
  have r: "requests initial_page = []" by (simp add: initial_page_def)
  note s = undefined_key_click [OF i, of rank_list_target example_host "[]" "[]",
      unfolded Let_def, folded initial_browser_def, THEN conjunct1]
  have "deliver example_host (Click rank_list_target) initial_browser
     = \<lparr>document = initial_page
          \<lparr>isDeathLoading := True, deathsList := [deathSpinner],
            recoveredList := [recoveredSpinner],
            requests := [''https://api.covid19api.com/country/undefined/status/deaths'']\<rparr>,
        pending = [AwaitDeaths None]\<rparr>"
    using s by (simp add: t r del: deliver.simps)
  with i t show ?thesis by (simp del: deliver.simps)
qed

end
